theory Spec2Isabelle
  imports Main "HOL-Library.Sublist"
begin

section \<open>The launcher \<open>manage_opencode_projects.py\<close>\<close>

text \<open>
  The script locates the \<open>bun\<close> executable, strips its own \<open>--bun\<close> option from the
  argument vector and runs \<open>src/bin/opencode-manager.ts\<close> under bun in the directory of
  the script. Everything the script does to its environment goes through three library
  calls: \<open>shutil.which\<close>, \<open>subprocess.run\<close> and, once at import,
  \<open>Path(__file__).resolve()\<close>. The model takes their results from a record of the
  environment and logs every call, so that "the search does not occur" and "no child is
  spawned" are statements about the log.
\<close>

subsection \<open>Python values and library calls\<close>

text \<open>An absolute path, as the list of its components below the root.\<close>

type_synonym path = "string list"

text \<open>
  The exceptions that can leave the script's functions: \<open>SystemExit\<close> with its
  message (raised by \<open>find_bun\<close>), \<open>OSError\<close> (what \<open>subprocess.run\<close> raises when
  the child cannot be created: \<open>FileNotFoundError\<close> and \<open>PermissionError\<close> are
  subclasses), and \<open>IndexError\<close> (list indexing out of range).
\<close>

datatype exn = SystemExit string | OSError string | IndexError

text \<open>What \<open>subprocess.run(cmd, cwd=...)\<close> does: it raises, or the child ran and
  ended with a return code.\<close>

datatype spawn_result = LaunchFailed string | Exited int

text \<open>
  The environment of a run: \<open>sys.argv\<close>; the answer of \<open>shutil.which(name)\<close>; what
  \<open>subprocess.run(cmd, cwd=dir)\<close> does; and \<open>Path(__file__).resolve()\<close>, the resolved
  path of the script's own file.
\<close>

record world =
  sys_argv :: "string list"
  which :: "string \<Rightarrow> string option"
  spawn :: "string list \<Rightarrow> path \<Rightarrow> spawn_result"
  module_file :: "path"

text \<open>
  The calls the script makes on its environment, in the order it makes them:
  \<open>Which name\<close> for \<open>shutil.which(name)\<close>, \<open>Run cmd dir\<close> for
  \<open>subprocess.run(cmd, cwd=dir)\<close>, logged whether the call returns or raises.
\<close>

datatype event = Which string | Run "string list" path

text \<open>\<open>s.startswith(p)\<close>.\<close>

definition startswith :: "string \<Rightarrow> string \<Rightarrow> bool" where
  "startswith s p = (take (length p) s = p)"

text \<open>\<open>s.split(c, 1)\<close> for a one-character separator: cut at the first \<open>c\<close>, if any.\<close>

definition py_split1 :: "string \<Rightarrow> char \<Rightarrow> string list" where
  "py_split1 s c =
     (if c \<in> set s
      then [takeWhile (\<lambda>x. x \<noteq> c) s, drop 1 (dropWhile (\<lambda>x. x \<noteq> c) s)]
      else [s])"

text \<open>\<open>xs[i]\<close> for a non-negative \<open>i\<close>.\<close>

definition py_index :: "'a list \<Rightarrow> nat \<Rightarrow> exn + 'a" where
  "py_index xs i = (if i < length xs then Inr (xs ! i) else Inl IndexError)"

text \<open>Truth value of a \<open>str | None\<close>: \<open>None\<close> and the empty string are false.\<close>

fun truthy :: "string option \<Rightarrow> bool" where
  "truthy None = False"
| "truthy (Some s) = (s \<noteq> [])"

subsection \<open>Module constants\<close>

definition CLI_SUBCOMMANDS :: "string set" where
  "CLI_SUBCOMMANDS = {''projects'', ''sessions'', ''chat'', ''tokens''}"

text \<open>\<open>Path.parent\<close> of a resolved path: the last component dropped; the root is its
  own parent.\<close>

definition parent :: "path \<Rightarrow> path" where
  "parent p = butlast p"

text \<open>
  \<open>PROJECT_DIR = Path(__file__).resolve().parent\<close>, evaluated when the module is
  loaded, in the environment of that moment. The functions below read the global, so they
  take its value as the argument \<open>project_dir\<close>.
\<close>

definition PROJECT_DIR :: "world \<Rightarrow> path" where
  "PROJECT_DIR w0 = parent (module_file w0)"

subsection \<open>\<open>find_bun\<close>\<close>

definition find_bun :: "world \<Rightarrow> string option \<Rightarrow> event list \<Rightarrow> (exn + string) \<times> event list" where
  "find_bun w explicit_path tr =
     (if truthy explicit_path then (Inr (the explicit_path), tr)
      else (let bun_path = which w ''bun''; tr' = tr @ [Which ''bun''] in
            if truthy bun_path then (Inr (the bun_path), tr')
            else (Inl (SystemExit ''bun executable not found. Please install Bun.''), tr')))"

subsection \<open>\<open>is_cli_subcommand\<close>\<close>

fun is_cli_subcommand :: "string list \<Rightarrow> bool" where
  "is_cli_subcommand [] = False"
| "is_cli_subcommand (arg # args) =
     (if startswith arg ''-'' then is_cli_subcommand args
      else arg \<in> CLI_SUBCOMMANDS)"

subsection \<open>\<open>run_entrypoint\<close>\<close>

definition run_entrypoint ::
  "world \<Rightarrow> path \<Rightarrow> string \<Rightarrow> string list \<Rightarrow> event list \<Rightarrow> (exn + int) \<times> event list" where
  "run_entrypoint w project_dir bun_exe args tr =
     (let args_list = args;
          args_list = (if args_list \<noteq> [] \<and> args_list ! 0 = ''--''
                       then drop 1 args_list else args_list);
          cmd = [bun_exe, ''src/bin/opencode-manager.ts''] @ args_list
      in (case spawn w cmd project_dir of
            LaunchFailed m \<Rightarrow> Inl (OSError m)
          | Exited returncode \<Rightarrow> Inr returncode,
          tr @ [Run cmd project_dir]))"

subsection \<open>\<open>main\<close>\<close>

text \<open>The \<open>while i < len(args)\<close> loop of \<open>main\<close>, with its three variables.\<close>

function main_loop ::
  "string list \<Rightarrow> nat \<Rightarrow> string option \<Rightarrow> string list \<Rightarrow> exn + (string option \<times> string list)" where
  "main_loop args i bun_exe_path filtered_args =
     (if i < length args then
        if args ! i = ''--bun'' \<and> i + 1 < length args then
          main_loop args (i + 2) (Some (args ! (i + 1))) filtered_args
        else if startswith (args ! i) ''--bun='' then
          (case py_index (py_split1 (args ! i) CHR ''='') 1 of
             Inl e \<Rightarrow> Inl e
           | Inr v \<Rightarrow> main_loop args (i + 1) (Some v) filtered_args)
        else main_loop args (i + 1) bun_exe_path (filtered_args @ [args ! i])
      else Inr (bun_exe_path, filtered_args))"
  by pat_completeness auto
termination
  by (relation "measure (\<lambda>(args, i, b, f). length args - i)") auto

declare main_loop.simps [simp del]

definition main :: "world \<Rightarrow> path \<Rightarrow> string list option \<Rightarrow> event list \<Rightarrow> (exn + int) \<times> event list" where
  "main w project_dir argv tr =
     (let args = (case argv of None \<Rightarrow> drop 1 (sys_argv w) | Some a \<Rightarrow> a) in
      case main_loop args 0 None [] of
        Inl e \<Rightarrow> (Inl e, tr)
      | Inr (bun_exe_path, filtered_args) \<Rightarrow>
          (case find_bun w bun_exe_path tr of
             (Inl e, tr') \<Rightarrow> (Inl e, tr')
           | (Inr bun_exe, tr') \<Rightarrow> run_entrypoint w project_dir bun_exe filtered_args tr'))"

subsection \<open>The script's last line: \<open>sys.exit(main())\<close>\<close>

text \<open>
  The exit status of the process when \<open>sys.exit\<close> is given the integer \<open>n\<close>, for
  CPython on a 64-bit POSIX system: the interpreter converts \<open>n\<close> to a C integer and the
  system keeps its low eight bits, so the status is \<open>n mod 256\<close> (\<open>sys.exit(-9)\<close> ends
  with 247, \<open>sys.exit(256)\<close> with 0); an integer that does not fit 64 bits is replaced
  by -1, so the status is 255.
\<close>

definition exit_status :: "int \<Rightarrow> int" where
  "exit_status n = (if - (2 ^ 63) \<le> n \<and> n < 2 ^ 63 then n mod 256 else 255)"

text \<open>
  What the interpreter does with the outcome of \<open>main()\<close>: an integer gives the exit
  status above and nothing is printed; \<open>SystemExit\<close> raised with a string prints the
  string on standard error and the status is 1; any other exception that nothing catches
  prints its traceback on standard error and the status is 1.
\<close>

datatype report = Silent | Message string | Traceback exn

fun sys_exit :: "exn + int \<Rightarrow> int \<times> report" where
  "sys_exit (Inr n) = (exit_status n, Silent)"
| "sys_exit (Inl (SystemExit msg)) = (1, Message msg)"
| "sys_exit (Inl e) = (1, Traceback e)"

text \<open>A run of the script: the module is loaded and \<open>main()\<close> is called with no
  argument, in one environment.\<close>

definition script :: "world \<Rightarrow> (int \<times> report) \<times> event list" where
  "script w = (case main w (PROJECT_DIR w) None [] of (r, tr) \<Rightarrow> (sys_exit r, tr))"

subsection \<open>The option scan, as the specification words it\<close>

text \<open>
  Reading the argument vector left to right, each position the scan reaches starts one
  segment: a recognised two-token occurrence \<open>--bun VALUE\<close>, a recognised one-token
  occurrence \<open>--bun=VALUE\<close>, or a plain token. A \<open>--bun\<close> with no token after it is a
  plain token.
\<close>

datatype segment = Plain string | BunPair string | BunEq string

fun segments :: "string list \<Rightarrow> segment list" where
  "segments [] = []"
| "segments [a] = (if startswith a ''--bun='' then [BunEq (drop 6 a)] else [Plain a])"
| "segments (a # v # rest) =
     (if a = ''--bun'' then BunPair v # segments rest
      else if startswith a ''--bun='' then BunEq (drop 6 a) # segments (v # rest)
      else Plain a # segments (v # rest))"

text \<open>The tokens a segment stands for, the tokens that stay, and the values captured.\<close>

fun tokens_of :: "segment \<Rightarrow> string list" where
  "tokens_of (Plain a) = [a]"
| "tokens_of (BunPair v) = [''--bun'', v]"
| "tokens_of (BunEq v) = [''--bun='' @ v]"

fun kept :: "segment list \<Rightarrow> string list" where
  "kept [] = []"
| "kept (Plain a # ss) = a # kept ss"
| "kept (_ # ss) = kept ss"

fun bun_values :: "segment list \<Rightarrow> string list" where
  "bun_values [] = []"
| "bun_values (Plain a # ss) = bun_values ss"
| "bun_values (BunPair v # ss) = v # bun_values ss"
| "bun_values (BunEq v # ss) = v # bun_values ss"

text \<open>The override in force after the occurrences \<open>vs\<close>, starting from \<open>b\<close>: the last
  one, if there is any.\<close>

definition last_value :: "string option \<Rightarrow> string list \<Rightarrow> string option" where
  "last_value b vs = (if vs = [] then b else Some (last vs))"

text \<open>Step 2 of the specification: one leading \<open>--\<close> is dropped.\<close>

fun drop_leading_separator :: "string list \<Rightarrow> string list" where
  "drop_leading_separator [] = []"
| "drop_leading_separator (a # rest) = (if a = ''--'' then rest else a # rest)"

text \<open>A token that is, or could be, part of the wrapper's option.\<close>

definition is_bun_token :: "string \<Rightarrow> bool" where
  "is_bun_token a = (a = ''--bun'' \<or> startswith a ''--bun='')"

text \<open>How many \<open>--bun\<close> tokens in a row end the vector.\<close>

definition trailing_buns :: "string list \<Rightarrow> nat" where
  "trailing_buns args = length (takeWhile (\<lambda>a. a = ''--bun'') (rev args))"

text \<open>The log entries that are calls of \<open>subprocess.run\<close>.\<close>

fun is_run :: "event \<Rightarrow> bool" where
  "is_run (Run cmd cwd) = True"
| "is_run (Which name) = False"

subsection \<open>Example environments\<close>

text \<open>
  Environments for concrete runs. In the first, \<open>bun\<close> is on the search path and
  every child ends with return code 3; the command line is the last example of the
  specification's section 8. In the second, \<open>bun\<close> is not installed. In the third, the
  child cannot be created.
\<close>

definition example_world :: world where
  "example_world =
     \<lparr>sys_argv = [''manage_opencode_projects.py'', ''--bun'', ''/x/bun'', ''chat'', ''--model'', ''gpt''],
      which = (\<lambda>name. if name = ''bun'' then Some ''/usr/bin/bun'' else None),
      spawn = (\<lambda>cmd cwd. Exited 3),
      module_file = [''opt'', ''oc-manager'', ''manage_opencode_projects.py'']\<rparr>"

definition no_bun_world :: world where
  "no_bun_world =
     \<lparr>sys_argv = [''manage_opencode_projects.py'', ''projects'', ''list''],
      which = (\<lambda>name. None),
      spawn = (\<lambda>cmd cwd. Exited 0),
      module_file = [''opt'', ''oc-manager'', ''manage_opencode_projects.py'']\<rparr>"

definition launch_fails_world :: world where
  "launch_fails_world =
     \<lparr>sys_argv = [''manage_opencode_projects.py'', ''--bun=/not/a/program'', ''projects'', ''list''],
      which = (\<lambda>name. if name = ''bun'' then Some ''/usr/bin/bun'' else None),
      spawn = (\<lambda>cmd cwd. LaunchFailed ''No such file or directory''),
      module_file = [''opt'', ''oc-manager'', ''manage_opencode_projects.py'']\<rparr>"

text \<open>As \<open>example_world\<close>, with a child that ends with return code 1.\<close>

definition child_exits_1_world :: world where
  "child_exits_1_world = example_world\<lparr>spawn := (\<lambda>cmd cwd. Exited 1)\<rparr>"

text \<open>As \<open>example_world\<close>, with a child that signal 9 ends: \<open>subprocess.run\<close> reports
  the return code -9.\<close>

definition child_killed_world :: world where
  "child_killed_world = example_world\<lparr>spawn := (\<lambda>cmd cwd. Exited (- 9))\<rparr>"

text \<open>As \<open>example_world\<close>, with the script's file somewhere else.\<close>

definition moved_world :: world where
  "moved_world = example_world\<lparr>module_file := [''tmp'', ''copy.py'']\<rparr>"

section \<open>Properties\<close>

subsection \<open>The loop of \<open>main\<close> computes the scan\<close>

lemma startswith_bun_eq:
  assumes "startswith a ''--bun=''"
  shows "''--bun='' @ drop 6 a = a"
proof -
  have "take 6 a = ''--bun=''"
    using assms unfolding startswith_def by (simp add: eval_nat_numeral)
  then show ?thesis
    using append_take_drop_id [of 6 a] by simp
qed

lemma split_bun_eq:
  assumes "startswith a ''--bun=''"
  shows "py_index (py_split1 a CHR ''='') 1 = Inr (drop 6 a)"
proof -
  obtain r where a: "a = ''--bun='' @ r"
    using startswith_bun_eq [OF assms] by metis
  show ?thesis
    unfolding a by (simp add: py_split1_def py_index_def)
qed

lemma last_value_Nil [simp]: "last_value b [] = b"
  by (simp add: last_value_def)

lemma last_value_Cons [simp]: "last_value b (v # vs) = last_value (Some v) vs"
  by (simp add: last_value_def)

lemma bun_not_eq_form: "\<not> startswith ''--bun'' ''--bun=''"
  by (simp add: startswith_def)

lemma main_loop_segments:
  "i \<le> length args \<Longrightarrow>
   main_loop args i b f =
     Inr (last_value b (bun_values (segments (drop i args))), f @ kept (segments (drop i args)))"
proof (induction args i b f rule: main_loop.induct)
  case (1 args i b f)
  show ?case
  proof (cases "i < length args")
    case False
    with "1.prems" show ?thesis by (subst main_loop.simps) simp
  next
    case True
    note i = True
    show ?thesis
    proof (cases "args ! i = ''--bun'' \<and> i + 1 < length args")
      case True
      then have d: "drop i args = ''--bun'' # args ! (i + 1) # drop (i + 2) args"
        using i by (metis Cons_nth_drop_Suc Suc_eq_plus1 add_2_eq_Suc')
      have "main_loop args i b f = main_loop args (i + 2) (Some (args ! (i + 1))) f"
        using i True by (subst main_loop.simps) simp
      also have "\<dots> = Inr (last_value (Some (args ! (i + 1))) (bun_values (segments (drop (i + 2) args))),
                          f @ kept (segments (drop (i + 2) args)))"
        using "1.IH"(1) [OF i True] True by simp
      finally show ?thesis by (simp add: d)
    next
      case False
      note nopair = False
      have d: "drop i args = args ! i # drop (i + 1) args"
        using i by (simp add: Cons_nth_drop_Suc)
      have single: "args ! i = ''--bun'' \<Longrightarrow> drop (i + 1) args = []"
        using nopair by simp
      show ?thesis
      proof (cases "startswith (args ! i) ''--bun=''")
        case True
        then have ne: "args ! i \<noteq> ''--bun''"
          using bun_not_eq_form by auto
        have sp: "py_index (py_split1 (args ! i) CHR ''='') (Suc 0) = Inr (drop 6 (args ! i))"
          using split_bun_eq [OF True] by simp
        have "main_loop args i b f = main_loop args (i + 1) (Some (drop 6 (args ! i))) f"
          using i ne True sp by (subst main_loop.simps) simp
        also have "\<dots> = Inr (last_value (Some (drop 6 (args ! i))) (bun_values (segments (drop (i + 1) args))),
                          f @ kept (segments (drop (i + 1) args)))"
          using "1.IH"(2) [OF i nopair True split_bun_eq [OF True]] i by simp
        finally show ?thesis
          using True ne by (cases "drop (i + 1) args") (simp_all add: d)
      next
        case False
        have "main_loop args i b f = main_loop args (i + 1) b (f @ [args ! i])"
          using i nopair False by (subst main_loop.simps) auto
        also have "\<dots> = Inr (last_value b (bun_values (segments (drop (i + 1) args))),
                          (f @ [args ! i]) @ kept (segments (drop (i + 1) args)))"
          using "1.IH"(3) [OF i nopair False] i by simp
        finally show ?thesis
          using False single by (cases "drop (i + 1) args") (auto simp add: d)
      qed
    qed
  qed
qed

lemma main_loop_eq:
  "main_loop args 0 None [] =
     Inr (last_value None (bun_values (segments args)), kept (segments args))"
  using main_loop_segments [of 0 args None "[]"] by simp

subsection \<open>The three functions, one equation each\<close>

lemma run_entrypoint_eq:
  "run_entrypoint w pd exe args tr =
     (case spawn w (exe # ''src/bin/opencode-manager.ts'' # drop_leading_separator args) pd of
        LaunchFailed m \<Rightarrow> Inl (OSError m)
      | Exited rc \<Rightarrow> Inr rc,
      tr @ [Run (exe # ''src/bin/opencode-manager.ts'' # drop_leading_separator args) pd])"
  by (cases args) (simp_all add: run_entrypoint_def Let_def)

lemma find_bun_explicit: "truthy b \<Longrightarrow> find_bun w b tr = (Inr (the b), tr)"
  by (simp add: find_bun_def)

lemma find_bun_search:
  "\<not> truthy b \<Longrightarrow> truthy (which w ''bun'') \<Longrightarrow>
   find_bun w b tr = (Inr (the (which w ''bun'')), tr @ [Which ''bun''])"
  by (simp add: find_bun_def Let_def)

lemma find_bun_missing:
  "\<not> truthy b \<Longrightarrow> \<not> truthy (which w ''bun'') \<Longrightarrow>
   find_bun w b tr =
     (Inl (SystemExit ''bun executable not found. Please install Bun.''), tr @ [Which ''bun''])"
  by (simp add: find_bun_def Let_def)

lemma main_Some:
  "main w pd (Some args) tr =
     (case find_bun w (last_value None (bun_values (segments args))) tr of
        (Inl e, tr') \<Rightarrow> (Inl e, tr')
      | (Inr exe, tr') \<Rightarrow> run_entrypoint w pd exe (kept (segments args)) tr')"
  by (simp add: main_def main_loop_eq)

lemma main_None: "main w pd None tr = main w pd (Some (drop 1 (sys_argv w))) tr"
  by (simp add: main_def)

lemma main_trace_cases:
  "snd (main w pd (Some args) []) = [Which ''bun''] \<and> (\<exists>e. fst (main w pd (Some args) []) = Inl e \<and> e = SystemExit ''bun executable not found. Please install Bun.'') \<or>
   (\<exists>pre exe. snd (main w pd (Some args) []) = pre @ [Run (exe # ''src/bin/opencode-manager.ts'' # drop_leading_separator (kept (segments args))) pd]
       \<and> (pre = [] \<or> pre = [Which ''bun''])
       \<and> fst (main w pd (Some args) []) =
          (case spawn w (exe # ''src/bin/opencode-manager.ts'' # drop_leading_separator (kept (segments args))) pd of
             LaunchFailed m \<Rightarrow> Inl (OSError m) | Exited rc \<Rightarrow> Inr rc))"
proof -
  let ?b = "last_value None (bun_values (segments args))"
  consider "truthy ?b" | "\<not> truthy ?b" "truthy (which w ''bun'')" | "\<not> truthy ?b" "\<not> truthy (which w ''bun'')"
    by blast
  then show ?thesis
  proof cases
    case 1
    show ?thesis
      by (simp add: main_Some find_bun_explicit [OF 1] run_entrypoint_eq)
  next
    case 2
    show ?thesis
      by (simp add: main_Some find_bun_search [OF 2] run_entrypoint_eq)
  next
    case 3
    show ?thesis
      by (simp add: main_Some find_bun_missing [OF 3])
  qed
qed

subsection \<open>Segments\<close>

lemma segments_Cons_other:
  "a \<noteq> ''--bun'' \<Longrightarrow>
   segments (a # rest) =
     (if startswith a ''--bun='' then BunEq (drop 6 a) else Plain a) # segments rest"
  by (cases rest) simp_all

lemma segments_plain_prefix:
  "\<forall>a \<in> set pre. \<not> is_bun_token a \<Longrightarrow> segments (pre @ ys) = map Plain pre @ segments ys"
  by (induction pre) (simp_all add: segments_Cons_other is_bun_token_def)

lemma segments_all_plain:
  "\<forall>a \<in> set xs. \<not> is_bun_token a \<Longrightarrow> segments xs = map Plain xs"
  using segments_plain_prefix [of xs "[]"] by simp

lemma kept_append: "kept (ss @ ts) = kept ss @ kept ts"
  by (induction ss rule: kept.induct) simp_all

lemma bun_values_append: "bun_values (ss @ ts) = bun_values ss @ bun_values ts"
  by (induction ss rule: bun_values.induct) simp_all

lemma kept_map_Plain: "kept (map Plain xs) = xs"
  by (induction xs) simp_all

lemma bun_values_map_Plain: "bun_values (map Plain xs) = []"
  by (induction xs) simp_all

lemma eq_form_token: "startswith (''--bun='' @ p) ''--bun='' \<and> drop 6 (''--bun='' @ p) = p \<and> ''--bun='' @ p \<noteq> ''--bun''"
  by (simp add: startswith_def)

lemma segments_one_pair:
  assumes "\<forall>a \<in> set pre. \<not> is_bun_token a" "\<forall>a \<in> set post. \<not> is_bun_token a"
  shows "segments (pre @ [''--bun'', p] @ post) = map Plain pre @ BunPair p # map Plain post"
  using assms by (simp add: segments_plain_prefix segments_all_plain)

lemma segments_one_eq:
  assumes "\<forall>a \<in> set pre. \<not> is_bun_token a" "\<forall>a \<in> set post. \<not> is_bun_token a"
  shows "segments (pre @ [''--bun='' @ p] @ post) = map Plain pre @ BunEq p # map Plain post"
  using assms
  by (simp add: segments_plain_prefix segments_all_plain segments_Cons_other startswith_def)

lemma segments_roundtrip: "concat (map tokens_of (segments args)) = args"
proof (induction args rule: segments.induct)
  case (2 a)
  then show ?case using startswith_bun_eq [of a] by simp
next
  case (3 a v rest)
  then show ?case using startswith_bun_eq [of a] by simp
qed simp

lemma kept_subseq: "subseq (kept (segments args)) args"
  by (induction args rule: segments.induct) (auto intro: list_emb_Cons)

lemma trailing_buns_snoc:
  "trailing_buns (xs @ [a]) = (if a = ''--bun'' then Suc (trailing_buns xs) else 0)"
  by (simp add: trailing_buns_def)

lemma trailing_buns_all:
  assumes "\<forall>x \<in> set xs. x = ''--bun''"
  shows "trailing_buns xs = length xs"
proof -
  have "takeWhile (\<lambda>a. a = ''--bun'') (rev xs) = rev xs"
    using assms by (simp add: takeWhile_eq_all_conv)
  then show ?thesis unfolding trailing_buns_def by (simp only: length_rev)
qed

lemma trailing_buns_Cons:
  "trailing_buns (a # xs) =
     (if \<forall>x \<in> set xs. x = ''--bun''
      then (if a = ''--bun'' then Suc (length xs) else length xs)
      else trailing_buns xs)"
  by (auto simp add: trailing_buns_def takeWhile_append)

lemma trailing_buns_other: "a \<noteq> ''--bun'' \<Longrightarrow> trailing_buns (a # xs) = trailing_buns xs"
  by (simp add: trailing_buns_Cons trailing_buns_all)

lemma trailing_buns_pair:
  "even (trailing_buns (''--bun'' # v # rest)) = even (trailing_buns rest)"
  by (simp add: trailing_buns_Cons trailing_buns_all)

lemma segments_clean_append:
  "even (trailing_buns pre) \<Longrightarrow> segments (pre @ ys) = segments pre @ segments ys"
proof (induction pre rule: segments.induct)
  case 1
  show ?case by simp
next
  case (2 a)
  then have "a \<noteq> ''--bun''"
    by (auto simp add: trailing_buns_Cons)
  then show ?case by (simp add: segments_Cons_other)
next
  case (3 a v rest)
  show ?case
  proof (cases "a = ''--bun''")
    case True
    with "3.prems" have "even (trailing_buns rest)"
      by (simp add: trailing_buns_pair)
    with "3.IH"(1) True show ?thesis by simp
  next
    case False
    with "3.prems" have e: "even (trailing_buns (v # rest))"
      by (simp add: trailing_buns_other)
    have "segments ((v # rest) @ ys) = segments (v # rest) @ segments ys"
      using "3.IH"(2,3) False e by blast
    with False show ?thesis by (simp add: segments_Cons_other)
  qed
qed

subsection \<open>Runs of \<open>main\<close>\<close>

lemma find_bun_runs_nothing: "filter is_run (snd (find_bun w b tr)) = filter is_run tr"
  by (simp add: find_bun_def Let_def)

lemma main_runs:
  "Run cmd d \<in> set (snd (main w pd (Some args) [])) \<Longrightarrow>
   drop 2 cmd = drop_leading_separator (kept (segments args)) \<and> d = pd"
  using main_trace_cases [of w pd args] by auto

lemma drop_leading_separator_cases:
  "drop_leading_separator f = f \<or> f = ''--'' # drop_leading_separator f"
  by (cases f) simp_all

lemma odd_trailing_buns_snoc:
  assumes "odd (trailing_buns args)"
  shows "args = butlast args @ [''--bun''] \<and> even (trailing_buns (butlast args))"
proof -
  have ne: "args \<noteq> []"
    using assms by (auto simp add: trailing_buns_def)
  then have a: "args = butlast args @ [last args]" by simp
  have "trailing_buns (butlast args @ [last args]) =
          (if last args = ''--bun'' then Suc (trailing_buns (butlast args)) else 0)"
    by (rule trailing_buns_snoc)
  with a assms have "last args = ''--bun'' \<and> even (trailing_buns (butlast args))"
    by (cases "last args = ''--bun''") (auto simp del: trailing_buns_snoc)
  with a show ?thesis by simp
qed

subsection \<open>The child invocation\<close>

text \<open>
  C1. For every executable path and every argument vector handed to \<open>run_entrypoint\<close>,
  the one call it makes is \<open>subprocess.run\<close> on the executable path, then the constant
  \<open>src/bin/opencode-manager.ts\<close>, then the arguments in their order with one leading
  \<open>--\<close> dropped. The working directory is fixed when the module is loaded (environment
  \<open>w0\<close>), whatever the environment \<open>w\<close> of the call: when the script's resolved file is
  \<open>f\<close> in the directory \<open>dir\<close>, the working directory is \<open>dir\<close>; when the resolved
  path is the root, it is the root. In a run of the script, every child runs in the
  directory of the script's file.
\<close>

theorem run_entrypoint_invocation:
  "snd (run_entrypoint w (PROJECT_DIR w0) bun_exe args tr) =
     tr @ [Run ([bun_exe, ''src/bin/opencode-manager.ts''] @ drop_leading_separator args)
               (parent (module_file w0))]
   \<and> (module_file w0 = dir @ [f] \<longrightarrow>
        snd (run_entrypoint w (PROJECT_DIR w0) bun_exe args tr) =
          tr @ [Run ([bun_exe, ''src/bin/opencode-manager.ts''] @ drop_leading_separator args) dir])
   \<and> (module_file w0 = [] \<longrightarrow>
        snd (run_entrypoint w (PROJECT_DIR w0) bun_exe args tr) =
          tr @ [Run ([bun_exe, ''src/bin/opencode-manager.ts''] @ drop_leading_separator args) []])
   \<and> (module_file w0 = dir @ [f] \<and> Run cmd d \<in> set (snd (script w0)) \<longrightarrow> d = dir)"
proof (intro conjI impI)
  show "snd (run_entrypoint w (PROJECT_DIR w0) bun_exe args tr) =
     tr @ [Run ([bun_exe, ''src/bin/opencode-manager.ts''] @ drop_leading_separator args)
               (parent (module_file w0))]"
    by (simp add: run_entrypoint_eq PROJECT_DIR_def)
  show "snd (run_entrypoint w (PROJECT_DIR w0) bun_exe args tr) =
          tr @ [Run ([bun_exe, ''src/bin/opencode-manager.ts''] @ drop_leading_separator args) dir]"
    if "module_file w0 = dir @ [f]"
    using that by (simp add: run_entrypoint_eq PROJECT_DIR_def parent_def)
  show "snd (run_entrypoint w (PROJECT_DIR w0) bun_exe args tr) =
          tr @ [Run ([bun_exe, ''src/bin/opencode-manager.ts''] @ drop_leading_separator args) []]"
    if "module_file w0 = []"
    using that by (simp add: run_entrypoint_eq PROJECT_DIR_def parent_def)
  show "d = dir" if h: "module_file w0 = dir @ [f] \<and> Run cmd d \<in> set (snd (script w0))"
  proof -
    have "snd (script w0) = snd (main w0 (PROJECT_DIR w0) (Some (drop 1 (sys_argv w0))) [])"
      by (simp add: script_def main_None split: prod.splits)
    with h have "d = PROJECT_DIR w0"
      using main_runs [of cmd d w0 "PROJECT_DIR w0" "drop 1 (sys_argv w0)"] by simp
    with h show ?thesis by (simp add: PROJECT_DIR_def parent_def)
  qed
qed

theorem run_entrypoint_invocation_witness:
  "module_file example_world = [''opt'', ''oc-manager''] @ [''manage_opencode_projects.py'']
   \<and> snd (run_entrypoint moved_world (PROJECT_DIR example_world) ''/x/bun'' [''--'', ''--help''] [])
       = [Run [''/x/bun'', ''src/bin/opencode-manager.ts'', ''--help''] [''opt'', ''oc-manager'']]
   \<and> snd (script example_world)
       = [Run [''/x/bun'', ''src/bin/opencode-manager.ts'', ''chat'', ''--model'', ''gpt''] [''opt'', ''oc-manager'']]
   \<and> snd (script moved_world)
       = [Run [''/x/bun'', ''src/bin/opencode-manager.ts'', ''chat'', ''--model'', ''gpt''] [''tmp'']]"
proof -
  have m: "module_file example_world = [''opt'', ''oc-manager''] @ [''manage_opencode_projects.py'']"
    by (simp add: example_world_def)
  have s: "snd (script example_world)
       = [Run [''/x/bun'', ''src/bin/opencode-manager.ts'', ''chat'', ''--model'', ''gpt''] [''opt'', ''oc-manager'']]"
    by (simp add: script_def main_None main_Some find_bun_def run_entrypoint_eq PROJECT_DIR_def
        parent_def startswith_def example_world_def)
  have s': "snd (script moved_world)
       = [Run [''/x/bun'', ''src/bin/opencode-manager.ts'', ''chat'', ''--model'', ''gpt''] [''tmp'']]"
    by (simp add: script_def main_None main_Some find_bun_def run_entrypoint_eq PROJECT_DIR_def
        parent_def startswith_def example_world_def moved_world_def)
  from run_entrypoint_invocation
         [of moved_world example_world "''/x/bun''" "[''--'', ''--help'']" "[]"
             "[''opt'', ''oc-manager'']" "''manage_opencode_projects.py''"
             "[''/x/bun'', ''src/bin/opencode-manager.ts'', ''chat'', ''--model'', ''gpt'']" "[''opt'', ''oc-manager'']"]
       m s s'
  show ?thesis by (simp add: parent_def)
qed

subsection \<open>Exit code\<close>

text \<open>
  C2. Whenever a run of \<open>main\<close> started a child and the child ended with return code
  \<open>rc\<close>, \<open>main\<close> returns \<open>rc\<close> unchanged, and \<open>sys.exit\<close> of that value prints
  nothing and ends the script with the exit status of \<open>rc\<close>. For an exit code of the
  child, which is between 0 and 255, that status is \<open>rc\<close> itself. (A child ended by
  signal \<open>n\<close> has no exit code: \<open>subprocess.run\<close> reports \<open>-n\<close>, \<open>main\<close> returns
  \<open>-n\<close>, and the status of the script is \<open>256 - n\<close>.)
\<close>

theorem exit_code_propagated:
  assumes "Run cmd d \<in> set (snd (main w pd argv []))"
    and "spawn w cmd d = Exited rc"
  shows "fst (main w pd argv []) = Inr rc
     \<and> sys_exit (fst (main w pd argv [])) = (exit_status rc, Silent)
     \<and> (0 \<le> rc \<and> rc < 256 \<longrightarrow> sys_exit (fst (main w pd argv [])) = (rc, Silent))
     \<and> (- 64 \<le> rc \<and> rc < 0 \<longrightarrow> sys_exit (fst (main w pd argv [])) = (256 + rc, Silent))"
proof -
  obtain args where m: "main w pd argv [] = main w pd (Some args) []"
    by (cases argv) (auto simp add: main_None)
  from main_trace_cases [of w pd args] assms have r: "fst (main w pd argv []) = Inr rc"
    unfolding m by auto
  have "exit_status rc = rc" if "0 \<le> rc \<and> rc < 256"
    using that by (simp add: exit_status_def)
  moreover have "exit_status rc = 256 + rc" if "- 64 \<le> rc \<and> rc < 0"
  proof -
    from that have "rc mod 256 = 256 + rc"
      by presburger
    with that show ?thesis by (simp add: exit_status_def)
  qed
  ultimately show ?thesis using r by simp
qed

theorem exit_code_propagated_witness:
  "Run [''/x/bun'', ''src/bin/opencode-manager.ts'', ''chat'', ''--model'', ''gpt''] [''opt'', ''oc-manager'']
     \<in> set (snd (main example_world (PROJECT_DIR example_world) None []))
   \<and> spawn example_world [''/x/bun'', ''src/bin/opencode-manager.ts'', ''chat'', ''--model'', ''gpt'']
        [''opt'', ''oc-manager''] = Exited 3
   \<and> fst (main example_world (PROJECT_DIR example_world) None []) = Inr 3
   \<and> sys_exit (fst (main example_world (PROJECT_DIR example_world) None [])) = (3, Silent)
   \<and> Run [''/x/bun'', ''src/bin/opencode-manager.ts'', ''chat'', ''--model'', ''gpt''] [''opt'', ''oc-manager'']
     \<in> set (snd (main child_killed_world (PROJECT_DIR child_killed_world) None []))
   \<and> spawn child_killed_world [''/x/bun'', ''src/bin/opencode-manager.ts'', ''chat'', ''--model'', ''gpt'']
        [''opt'', ''oc-manager''] = Exited (- 9)
   \<and> fst (main child_killed_world (PROJECT_DIR child_killed_world) None []) = Inr (- 9)
   \<and> sys_exit (fst (main child_killed_world (PROJECT_DIR child_killed_world) None [])) = (247, Silent)"
proof -
  have a: "Run [''/x/bun'', ''src/bin/opencode-manager.ts'', ''chat'', ''--model'', ''gpt''] [''opt'', ''oc-manager'']
     \<in> set (snd (main example_world (PROJECT_DIR example_world) None []))"
    by (simp add: main_None main_Some example_world_def find_bun_def run_entrypoint_eq
        PROJECT_DIR_def parent_def startswith_def)
  have b: "spawn example_world [''/x/bun'', ''src/bin/opencode-manager.ts'', ''chat'', ''--model'', ''gpt'']
        [''opt'', ''oc-manager''] = Exited 3"
    by (simp add: example_world_def)
  have a': "Run [''/x/bun'', ''src/bin/opencode-manager.ts'', ''chat'', ''--model'', ''gpt''] [''opt'', ''oc-manager'']
     \<in> set (snd (main child_killed_world (PROJECT_DIR child_killed_world) None []))"
    by (simp add: main_None main_Some child_killed_world_def example_world_def find_bun_def
        run_entrypoint_eq PROJECT_DIR_def parent_def startswith_def)
  have b': "spawn child_killed_world [''/x/bun'', ''src/bin/opencode-manager.ts'', ''chat'', ''--model'', ''gpt'']
        [''opt'', ''oc-manager''] = Exited (- 9)"
    by (simp add: child_killed_world_def)
  from exit_code_propagated [OF a b] exit_code_propagated [OF a' b'] a b a' b'
  show ?thesis by (simp add: exit_status_def)
qed

subsection \<open>Classification\<close>

text \<open>
  C3. \<open>is_cli_subcommand\<close> answers "subcommand" exactly when the first token that does
  not begin with \<open>-\<close> is one of \<open>projects\<close>, \<open>sessions\<close>, \<open>chat\<close>, \<open>tokens\<close>. When
  every token begins with \<open>-\<close> (the empty vector included) the answer is "interactive".
  Tokens beginning with \<open>-\<close> never decide: leading ones can be removed, and all of them
  can be removed, without changing the answer.
\<close>

theorem is_cli_subcommand_first_nonflag:
  "(is_cli_subcommand args \<longleftrightarrow>
      (\<exists>t. List.find (\<lambda>a. \<not> startswith a ''-'') args = Some t \<and>
           t \<in> {''projects'', ''sessions'', ''chat'', ''tokens''}))
   \<and> ((\<forall>a \<in> set args. startswith a ''-'') \<longrightarrow> \<not> is_cli_subcommand args)
   \<and> ((\<forall>a \<in> set flags. startswith a ''-'') \<longrightarrow>
        is_cli_subcommand (flags @ rest) = is_cli_subcommand rest)
   \<and> is_cli_subcommand (filter (\<lambda>a. \<not> startswith a ''-'') args) = is_cli_subcommand args"
proof (intro conjI impI)
  show "is_cli_subcommand args \<longleftrightarrow>
      (\<exists>t. List.find (\<lambda>a. \<not> startswith a ''-'') args = Some t \<and>
           t \<in> {''projects'', ''sessions'', ''chat'', ''tokens''})"
    by (induction args) (simp_all add: CLI_SUBCOMMANDS_def)
  show "\<not> is_cli_subcommand args" if "\<forall>a \<in> set args. startswith a ''-''"
    using that by (induction args) simp_all
  show "is_cli_subcommand (flags @ rest) = is_cli_subcommand rest"
    if "\<forall>a \<in> set flags. startswith a ''-''"
    using that by (induction flags) simp_all
  show "is_cli_subcommand (filter (\<lambda>a. \<not> startswith a ''-'') args) = is_cli_subcommand args"
    by (induction args) simp_all
qed

theorem is_cli_subcommand_first_nonflag_witness:
  "is_cli_subcommand [''--verbose'', ''sessions'', ''list'']
   \<and> List.find (\<lambda>a. \<not> startswith a ''-'') [''--verbose'', ''sessions'', ''list''] = Some ''sessions''
   \<and> startswith ''--projects'' ''-'' \<and> startswith ''-x'' ''-''
   \<and> \<not> is_cli_subcommand [''--projects'', ''-x'']
   \<and> is_cli_subcommand ([''--projects'', ''-x''] @ [''list'', ''chat''])
      = is_cli_subcommand [''list'', ''chat'']
   \<and> \<not> is_cli_subcommand [''list'', ''chat'']"
proof -
  have flags: "\<forall>a \<in> set [''--projects'', ''-x'']. startswith a ''-''"
    by (simp add: startswith_def)
  have f: "List.find (\<lambda>a. \<not> startswith a ''-'') [''--verbose'', ''sessions'', ''list''] = Some ''sessions''"
    by (simp add: startswith_def)
  from is_cli_subcommand_first_nonflag [of "[''--verbose'', ''sessions'', ''list'']" "[''--projects'', ''-x'']" "[''list'', ''chat'']"]
       is_cli_subcommand_first_nonflag [of "[''--projects'', ''-x'']" "[''--projects'', ''-x'']" "[''list'', ''chat'']"]
       is_cli_subcommand_first_nonflag [of "[''list'', ''chat'']" "[]" "[]"]
       flags f
  show ?thesis by (simp add: startswith_def CLI_SUBCOMMANDS_def)
qed

subsection \<open>The runtime locator\<close>

text \<open>
  C4. Given a non-empty explicit path, \<open>find_bun\<close> returns it and makes no call (the
  log is unchanged, so \<open>shutil.which\<close> is not called). When the argument vector holds
  the option once, as \<open>--bun p\<close> or as \<open>--bun=p\<close> with \<open>p\<close> non-empty, and no other
  token of the vector is \<open>--bun\<close> or begins with \<open>--bun=\<close>, the loop of \<open>main\<close> captures
  \<open>p\<close>, \<open>main\<close> continues as \<open>run_entrypoint\<close> on \<open>p\<close>, and the whole log of the
  run is the one \<open>subprocess.run\<close> call on \<open>p\<close>: no search.
\<close>

theorem explicit_path_used:
  "(p \<noteq> [] \<longrightarrow> find_bun w (Some p) tr = (Inr p, tr))
   \<and> (p \<noteq> [] \<and> (\<forall>a \<in> set pre. \<not> is_bun_token a) \<and> (\<forall>a \<in> set post. \<not> is_bun_token a)
        \<and> (args = pre @ [''--bun'', p] @ post \<or> args = pre @ [''--bun='' @ p] @ post)
      \<longrightarrow> main_loop args 0 None [] = Inr (Some p, pre @ post)
        \<and> main w pd (Some args) tr = run_entrypoint w pd p (pre @ post) tr
        \<and> snd (main w pd (Some args) []) =
            [Run (p # ''src/bin/opencode-manager.ts'' # drop_leading_separator (pre @ post)) pd])"
proof (intro conjI impI)
  show "find_bun w (Some p) tr = (Inr p, tr)" if "p \<noteq> []"
    using that by (simp add: find_bun_def)
next
  assume h: "p \<noteq> [] \<and> (\<forall>a \<in> set pre. \<not> is_bun_token a) \<and> (\<forall>a \<in> set post. \<not> is_bun_token a)
        \<and> (args = pre @ [''--bun'', p] @ post \<or> args = pre @ [''--bun='' @ p] @ post)"
  then have seg: "segments args = map Plain pre @ BunPair p # map Plain post
                \<or> segments args = map Plain pre @ BunEq p # map Plain post"
    using segments_one_pair [of pre post p] segments_one_eq [of pre post p] by blast
  then have k: "kept (segments args) = pre @ post"
    and v: "last_value None (bun_values (segments args)) = Some p"
    by (auto simp add: kept_append bun_values_append kept_map_Plain bun_values_map_Plain)
  show "main_loop args 0 None [] = Inr (Some p, pre @ post)"
    by (simp add: main_loop_eq k v)
  show "main w pd (Some args) tr = run_entrypoint w pd p (pre @ post) tr"
    using h by (simp add: main_Some k v find_bun_def)
  show "snd (main w pd (Some args) []) =
            [Run (p # ''src/bin/opencode-manager.ts'' # drop_leading_separator (pre @ post)) pd]"
    using h by (simp add: main_Some k v find_bun_def run_entrypoint_eq)
qed

theorem explicit_path_used_witness:
  "find_bun no_bun_world (Some ''/custom/path'') [] = (Inr ''/custom/path'', [])
   \<and> main_loop [''--root'', ''--bun'', ''/custom/path'', ''projects'', ''list''] 0 None []
       = Inr (Some ''/custom/path'', [''--root'', ''projects'', ''list''])
   \<and> snd (main no_bun_world [''d''] (Some [''--root'', ''--bun'', ''/custom/path'', ''projects'', ''list'']) [])
       = [Run [''/custom/path'', ''src/bin/opencode-manager.ts'', ''--root'', ''projects'', ''list''] [''d'']]
   \<and> main_loop [''--root'', ''--bun=/custom/path'', ''projects'', ''list''] 0 None []
       = Inr (Some ''/custom/path'', [''--root'', ''projects'', ''list''])
   \<and> snd (main no_bun_world [''d''] (Some [''--root'', ''--bun=/custom/path'', ''projects'', ''list'']) [])
       = [Run [''/custom/path'', ''src/bin/opencode-manager.ts'', ''--root'', ''projects'', ''list''] [''d'']]"
proof -
  have pre: "\<forall>a \<in> set [''--root'']. \<not> is_bun_token a"
    by (simp add: is_bun_token_def startswith_def)
  have post: "\<forall>a \<in> set [''projects'', ''list'']. \<not> is_bun_token a"
    by (simp add: is_bun_token_def startswith_def)
  have ne: "''/custom/path'' \<noteq> []" by simp
  from explicit_path_used [of "''/custom/path''" no_bun_world "[]" "[''--root'']" "[''projects'', ''list'']"
        "[''--root'', ''--bun'', ''/custom/path'', ''projects'', ''list'']" "[''d'']"]
       explicit_path_used [of "''/custom/path''" no_bun_world "[]" "[''--root'']" "[''projects'', ''list'']"
        "[''--root'', ''--bun=/custom/path'', ''projects'', ''list'']" "[''d'']"]
       pre post ne
  show ?thesis by (simp add: run_entrypoint_eq)
qed

text \<open>
  C5. When the explicit path is \<open>None\<close> or empty and \<open>shutil.which\<close> finds nothing,
  \<open>find_bun\<close> raises \<open>SystemExit\<close> with the message
  \<open>bun executable not found. Please install Bun.\<close> after its one search. \<open>main\<close>
  passes the exception on: the log of the run is that one search, with no
  \<open>subprocess.run\<close>, and the script ends with status 1 and the message on standard error.
\<close>

theorem runtime_not_found:
  assumes "\<not> truthy explicit_path" and "\<not> truthy (which w ''bun'')"
  shows "find_bun w explicit_path tr =
           (Inl (SystemExit ''bun executable not found. Please install Bun.''), tr @ [Which ''bun''])
     \<and> (main_loop args 0 None [] = Inr (explicit_path, filtered_args) \<longrightarrow>
          main w pd (Some args) [] =
            (Inl (SystemExit ''bun executable not found. Please install Bun.''), [Which ''bun''])
          \<and> sys_exit (fst (main w pd (Some args) [])) =
            (1, Message ''bun executable not found. Please install Bun.''))
     \<and> (main_loop (drop 1 (sys_argv w)) 0 None [] = Inr (explicit_path, filtered_args) \<longrightarrow>
          script w = ((1, Message ''bun executable not found. Please install Bun.''), [Which ''bun'']))"
proof (intro conjI impI)
  show fb: "find_bun w explicit_path tr =
           (Inl (SystemExit ''bun executable not found. Please install Bun.''), tr @ [Which ''bun''])"
    for tr
    using assms by (rule find_bun_missing)
  show "main w pd (Some args) [] =
            (Inl (SystemExit ''bun executable not found. Please install Bun.''), [Which ''bun''])"
    if "main_loop args 0 None [] = Inr (explicit_path, filtered_args)"
    using that by (simp add: main_def fb)
  then show "sys_exit (fst (main w pd (Some args) [])) =
            (1, Message ''bun executable not found. Please install Bun.'')"
    if "main_loop args 0 None [] = Inr (explicit_path, filtered_args)"
    using that by simp
  show "script w = ((1, Message ''bun executable not found. Please install Bun.''), [Which ''bun''])"
    if "main_loop (drop 1 (sys_argv w)) 0 None [] = Inr (explicit_path, filtered_args)"
    using that by (simp add: script_def main_def fb)
qed

theorem runtime_not_found_witness:
  "\<not> truthy (Some []) \<and> \<not> truthy (which no_bun_world ''bun'')
   \<and> find_bun no_bun_world (Some []) [] =
       (Inl (SystemExit ''bun executable not found. Please install Bun.''), [Which ''bun''])
   \<and> main_loop [''--bun='', ''tokens''] 0 None [] = Inr (Some [], [''tokens''])
   \<and> main no_bun_world [''d''] (Some [''--bun='', ''tokens'']) [] =
       (Inl (SystemExit ''bun executable not found. Please install Bun.''), [Which ''bun''])
   \<and> \<not> truthy None
   \<and> main_loop (drop 1 (sys_argv no_bun_world)) 0 None [] = Inr (None, [''projects'', ''list''])
   \<and> script no_bun_world =
       ((1, Message ''bun executable not found. Please install Bun.''), [Which ''bun''])"
proof -
  have e: "\<not> truthy (Some [])" "\<not> truthy None" by simp_all
  have n: "\<not> truthy (which no_bun_world ''bun'')"
    by (simp add: no_bun_world_def)
  have l1: "main_loop [''--bun='', ''tokens''] 0 None [] = Inr (Some [], [''tokens''])"
    by (simp add: main_loop_eq startswith_def)
  have l2: "main_loop (drop 1 (sys_argv no_bun_world)) 0 None [] = Inr (None, [''projects'', ''list''])"
    by (simp add: main_loop_eq startswith_def no_bun_world_def)
  from runtime_not_found [OF e(1) n, of "[]" "[''--bun='', ''tokens'']" "[''tokens'']" "[''d'']"]
       runtime_not_found [OF e(2) n, of "[]" "[]" "[''projects'', ''list'']" "[]"]
       e n l1 l2
  show ?thesis by simp
qed

subsection \<open>A child that cannot be started\<close>

text \<open>
  C6, as stated, asks for an exit status that tells a failed launch from everything
  else. The script gives none: it does not catch the \<open>OSError\<close>, the interpreter ends
  with status 1, and 1 is also the status of a run whose child started and returned 1,
  and of a run that found no \<open>bun\<close>.
\<close>

theorem launch_failure_status_not_reserved:
  "script launch_fails_world =
     ((1, Traceback (OSError ''No such file or directory'')),
      [Run [''/not/a/program'', ''src/bin/opencode-manager.ts'', ''projects'', ''list''] [''opt'', ''oc-manager'']])
   \<and> spawn launch_fails_world
        [''/not/a/program'', ''src/bin/opencode-manager.ts'', ''projects'', ''list''] [''opt'', ''oc-manager'']
       = LaunchFailed ''No such file or directory''
   \<and> script child_exits_1_world =
     ((1, Silent),
      [Run [''/x/bun'', ''src/bin/opencode-manager.ts'', ''chat'', ''--model'', ''gpt''] [''opt'', ''oc-manager'']])
   \<and> spawn child_exits_1_world
        [''/x/bun'', ''src/bin/opencode-manager.ts'', ''chat'', ''--model'', ''gpt''] [''opt'', ''oc-manager'']
       = Exited 1
   \<and> fst (fst (script launch_fails_world)) = fst (fst (script child_exits_1_world))
   \<and> fst (fst (script launch_fails_world)) = fst (fst (script no_bun_world))"
  by (simp add: script_def main_None main_Some find_bun_def run_entrypoint_eq PROJECT_DIR_def
      parent_def startswith_def launch_fails_world_def child_exits_1_world_def example_world_def
      no_bun_world_def exit_status_def)

text \<open>
  C6, amended. When \<open>subprocess.run\<close> raises on the command \<open>main\<close> built, \<open>main\<close>
  raises the same \<open>OSError\<close>; the log holds exactly one \<open>subprocess.run\<close> call (no
  second attempt); the script ends with status 1 and the traceback of the error on
  standard error.
\<close>

theorem launch_failure_propagates:
  assumes "main_loop args 0 None [] = Inr (bun_exe_path, filtered_args)"
    and "find_bun w bun_exe_path [] = (Inr bun_exe, tr)"
    and "spawn w (bun_exe # ''src/bin/opencode-manager.ts'' # drop_leading_separator filtered_args) pd
           = LaunchFailed m"
  shows "main w pd (Some args) [] =
           (Inl (OSError m),
            tr @ [Run (bun_exe # ''src/bin/opencode-manager.ts'' # drop_leading_separator filtered_args) pd])
     \<and> filter is_run (snd (main w pd (Some args) [])) =
           [Run (bun_exe # ''src/bin/opencode-manager.ts'' # drop_leading_separator filtered_args) pd]
     \<and> sys_exit (fst (main w pd (Some args) [])) = (1, Traceback (OSError m))"
proof -
  have m: "main w pd (Some args) [] =
           (Inl (OSError m),
            tr @ [Run (bun_exe # ''src/bin/opencode-manager.ts'' # drop_leading_separator filtered_args) pd])"
    using assms by (simp add: main_def run_entrypoint_eq)
  have "filter is_run tr = []"
    using find_bun_runs_nothing [of w bun_exe_path "[]"] assms(2) by simp
  with m show ?thesis by simp
qed

theorem launch_failure_propagates_witness:
  "main_loop [''--bun=/not/a/program'', ''projects'', ''list''] 0 None []
     = Inr (Some ''/not/a/program'', [''projects'', ''list''])
   \<and> find_bun launch_fails_world (Some ''/not/a/program'') [] = (Inr ''/not/a/program'', [])
   \<and> spawn launch_fails_world
        [''/not/a/program'', ''src/bin/opencode-manager.ts'', ''projects'', ''list''] [''d'']
       = LaunchFailed ''No such file or directory''
   \<and> main launch_fails_world [''d''] (Some [''--bun=/not/a/program'', ''projects'', ''list'']) [] =
       (Inl (OSError ''No such file or directory''),
        [Run [''/not/a/program'', ''src/bin/opencode-manager.ts'', ''projects'', ''list''] [''d'']])
   \<and> sys_exit (fst (main launch_fails_world [''d''] (Some [''--bun=/not/a/program'', ''projects'', ''list'']) []))
       = (1, Traceback (OSError ''No such file or directory''))"
proof -
  have a: "main_loop [''--bun=/not/a/program'', ''projects'', ''list''] 0 None []
     = Inr (Some ''/not/a/program'', [''projects'', ''list''])"
    by (simp add: main_loop_eq startswith_def)
  have b: "find_bun launch_fails_world (Some ''/not/a/program'') [] = (Inr ''/not/a/program'', [])"
    by (simp add: find_bun_def)
  have c: "spawn launch_fails_world
        (''/not/a/program'' # ''src/bin/opencode-manager.ts'' # drop_leading_separator [''projects'', ''list'']) [''d'']
       = LaunchFailed ''No such file or directory''"
    by (simp add: launch_fails_world_def)
  from launch_failure_propagates [OF a b c] a b c show ?thesis by simp
qed

subsection \<open>The leading separator\<close>

text \<open>
  C9. \<open>run_entrypoint\<close> drops the first argument when it is exactly \<open>--\<close> and passes
  the rest as it is; an argument vector that is empty or starts with another token is
  passed whole, with every later \<open>--\<close>; of two leading \<open>--\<close> only the first is dropped.
\<close>

theorem leading_separator_once:
  "snd (run_entrypoint w pd bun_exe (''--'' # rest) tr) =
     tr @ [Run (bun_exe # ''src/bin/opencode-manager.ts'' # rest) pd]
   \<and> ((args = [] \<or> hd args \<noteq> ''--'') \<longrightarrow>
        snd (run_entrypoint w pd bun_exe args tr) =
          tr @ [Run (bun_exe # ''src/bin/opencode-manager.ts'' # args) pd])
   \<and> snd (run_entrypoint w pd bun_exe (''--'' # ''--'' # rest) tr) =
        tr @ [Run (bun_exe # ''src/bin/opencode-manager.ts'' # ''--'' # rest) pd]"
  by (cases args) (simp_all add: run_entrypoint_eq)

theorem leading_separator_once_witness:
  "snd (run_entrypoint example_world [''d''] ''bun'' [''--'', ''--help'', ''--'', ''x''] []) =
     [Run [''bun'', ''src/bin/opencode-manager.ts'', ''--help'', ''--'', ''x''] [''d'']]
   \<and> hd [''--help'', ''--''] \<noteq> ''--''
   \<and> snd (run_entrypoint example_world [''d''] ''bun'' [''--help'', ''--''] []) =
     [Run [''bun'', ''src/bin/opencode-manager.ts'', ''--help'', ''--''] [''d'']]
   \<and> snd (run_entrypoint example_world [''d''] ''bun'' [''--'', ''--'', ''x''] []) =
     [Run [''bun'', ''src/bin/opencode-manager.ts'', ''--'', ''x''] [''d'']]"
proof -
  have h: "hd [''--help'', ''--''] \<noteq> ''--''" by simp
  from leading_separator_once [of example_world "[''d'']" "''bun''" "[''--help'', ''--'', ''x'']" "[]" "[''--help'', ''--'']"]
       leading_separator_once [of example_world "[''d'']" "''bun''" "[''x'']" "[]" "[]"]
       h
  show ?thesis by simp
qed

subsection \<open>Option extraction\<close>

text \<open>
  C7. For every argument vector the loop of \<open>main\<close> ends normally, and its filtered
  vector is the plain tokens of the scan in their order. The segments of the scan, put
  back together, are the argument vector, so the filtered vector is the argument vector
  without the tokens of the recognised \<open>--bun\<close> occurrences: a subsequence of it, and
  the whole of it when no token is \<open>--bun\<close> or begins with \<open>--bun=\<close>. The arguments of
  every child command after the executable and the entry point are the filtered vector,
  as it is or without its leading \<open>--\<close>.
\<close>

theorem filtered_args_preserved:
  "(\<exists>b. main_loop args 0 None [] = Inr (b, kept (segments args)))
   \<and> concat (map tokens_of (segments args)) = args
   \<and> subseq (kept (segments args)) args
   \<and> ((\<forall>a \<in> set args. \<not> is_bun_token a) \<longrightarrow> kept (segments args) = args)
   \<and> (Run cmd d \<in> set (snd (main w pd (Some args) [])) \<longrightarrow>
        drop 2 cmd = drop_leading_separator (kept (segments args)))
   \<and> (drop_leading_separator (kept (segments args)) = kept (segments args)
        \<or> kept (segments args) = ''--'' # drop_leading_separator (kept (segments args)))"
proof (intro conjI impI)
  show "\<exists>b. main_loop args 0 None [] = Inr (b, kept (segments args))"
    by (simp add: main_loop_eq)
  show "concat (map tokens_of (segments args)) = args"
    by (rule segments_roundtrip)
  show "subseq (kept (segments args)) args"
    by (rule kept_subseq)
  show "kept (segments args) = args" if "\<forall>a \<in> set args. \<not> is_bun_token a"
    using that by (simp add: segments_all_plain kept_map_Plain)
  show "drop 2 cmd = drop_leading_separator (kept (segments args))"
    if "Run cmd d \<in> set (snd (main w pd (Some args) []))"
    using main_runs [OF that] by simp
  show "drop_leading_separator (kept (segments args)) = kept (segments args)
        \<or> kept (segments args) = ''--'' # drop_leading_separator (kept (segments args))"
    by (rule drop_leading_separator_cases)
qed

theorem filtered_args_preserved_witness:
  "segments [''-v'', ''--bun'', ''/x/bun'', ''--'', ''chat'', ''--bun=/y'', ''--'', ''--bun'']
     = [Plain ''-v'', BunPair ''/x/bun'', Plain ''--'', Plain ''chat'', BunEq ''/y'', Plain ''--'', Plain ''--bun'']
   \<and> main_loop [''-v'', ''--bun'', ''/x/bun'', ''--'', ''chat'', ''--bun=/y'', ''--'', ''--bun''] 0 None []
     = Inr (Some ''/y'', [''-v'', ''--'', ''chat'', ''--'', ''--bun''])
   \<and> kept (segments [''--'', ''chat'', ''--'']) = [''--'', ''chat'', ''--'']
   \<and> Run [''/usr/bin/bun'', ''src/bin/opencode-manager.ts'', ''chat'', ''--''] [''d'']
       \<in> set (snd (main example_world [''d''] (Some [''--'', ''chat'', ''--'']) []))
   \<and> drop 2 [''/usr/bin/bun'', ''src/bin/opencode-manager.ts'', ''chat'', ''--'']
       = drop_leading_separator (kept (segments [''--'', ''chat'', ''--'']))"
proof -
  have s: "segments [''-v'', ''--bun'', ''/x/bun'', ''--'', ''chat'', ''--bun=/y'', ''--'', ''--bun'']
     = [Plain ''-v'', BunPair ''/x/bun'', Plain ''--'', Plain ''chat'', BunEq ''/y'', Plain ''--'', Plain ''--bun'']"
    by (simp add: startswith_def)
  have n: "\<forall>a \<in> set [''--'', ''chat'', ''--'']. \<not> is_bun_token a"
    by (simp add: is_bun_token_def startswith_def)
  have r: "Run [''/usr/bin/bun'', ''src/bin/opencode-manager.ts'', ''chat'', ''--''] [''d'']
       \<in> set (snd (main example_world [''d''] (Some [''--'', ''chat'', ''--'']) []))"
    by (simp add: main_Some find_bun_def run_entrypoint_eq example_world_def startswith_def)
  from filtered_args_preserved
         [of "[''-v'', ''--bun'', ''/x/bun'', ''--'', ''chat'', ''--bun=/y'', ''--'', ''--bun'']"
             "[]" "[]" example_world "[]"]
       filtered_args_preserved
         [of "[''--'', ''chat'', ''--'']"
             "[''/usr/bin/bun'', ''src/bin/opencode-manager.ts'', ''chat'', ''--'']" "[''d'']"
             example_world "[''d'']"]
       s n r
  show ?thesis by (simp add: main_loop_eq)
qed

text \<open>
  C8. When the scan recognises at least one occurrence, the value the loop of \<open>main\<close>
  captures is the value of the last one, and that is what \<open>main\<close> hands to \<open>find_bun\<close>.
  In particular, after any prefix that the scan leaves at its end (it ends in an even
  number of \<open>--bun\<close> tokens) and before a rest with no \<open>--bun\<close> token, an occurrence
  \<open>--bun v\<close> or \<open>--bun=v\<close> gives \<open>v\<close>, whatever occurrences the prefix holds.
\<close>

theorem last_bun_wins:
  "(bun_values (segments args) \<noteq> [] \<longrightarrow>
      (\<exists>f. main_loop args 0 None [] = Inr (Some (last (bun_values (segments args))), f))
      \<and> main w pd (Some args) tr =
          (case find_bun w (Some (last (bun_values (segments args)))) tr of
             (Inl e, tr') \<Rightarrow> (Inl e, tr')
           | (Inr bun_exe, tr') \<Rightarrow> run_entrypoint w pd bun_exe (kept (segments args)) tr'))
   \<and> (even (trailing_buns pre) \<and> (\<forall>a \<in> set post. \<not> is_bun_token a) \<longrightarrow>
        (\<exists>f. main_loop (pre @ [''--bun'', v] @ post) 0 None [] = Inr (Some v, f))
        \<and> (\<exists>f. main_loop (pre @ [''--bun='' @ v] @ post) 0 None [] = Inr (Some v, f)))"
proof (intro conjI impI)
  assume ne: "bun_values (segments args) \<noteq> []"
  then have lv: "last_value None (bun_values (segments args)) = Some (last (bun_values (segments args)))"
    by (simp add: last_value_def)
  show "\<exists>f. main_loop args 0 None [] = Inr (Some (last (bun_values (segments args))), f)"
    by (simp add: main_loop_eq lv)
  show "main w pd (Some args) tr =
          (case find_bun w (Some (last (bun_values (segments args)))) tr of
             (Inl e, tr') \<Rightarrow> (Inl e, tr')
           | (Inr bun_exe, tr') \<Rightarrow> run_entrypoint w pd bun_exe (kept (segments args)) tr')"
    by (simp add: main_Some lv)
next
  assume h: "even (trailing_buns pre) \<and> (\<forall>a \<in> set post. \<not> is_bun_token a)"
  then have p: "segments post = map Plain post"
    by (simp add: segments_all_plain)
  have "segments (pre @ [''--bun'', v] @ post) = segments pre @ BunPair v # map Plain post"
    using h by (simp add: segments_clean_append p)
  then show "\<exists>f. main_loop (pre @ [''--bun'', v] @ post) 0 None [] = Inr (Some v, f)"
    by (simp add: main_loop_eq bun_values_append bun_values_map_Plain last_value_def)
  have "segments (pre @ [''--bun='' @ v] @ post) = segments pre @ BunEq v # map Plain post"
    using h by (simp add: segments_clean_append p segments_Cons_other startswith_def)
  then show "\<exists>f. main_loop (pre @ [''--bun='' @ v] @ post) 0 None [] = Inr (Some v, f)"
    by (simp add: main_loop_eq bun_values_append bun_values_map_Plain last_value_def)
qed

theorem last_bun_wins_witness:
  "bun_values (segments [''--bun'', ''/a'', ''x'', ''--bun=/b'', ''y'']) = [''/a'', ''/b'']
   \<and> main_loop [''--bun'', ''/a'', ''x'', ''--bun=/b'', ''y''] 0 None [] = Inr (Some ''/b'', [''x'', ''y''])
   \<and> snd (main no_bun_world [''d''] (Some [''--bun'', ''/a'', ''x'', ''--bun=/b'', ''y'']) [])
       = [Run [''/b'', ''src/bin/opencode-manager.ts'', ''x'', ''y''] [''d'']]
   \<and> even (trailing_buns [''--bun=/z'', ''--bun'', ''/a''])
   \<and> main_loop ([''--bun=/z'', ''--bun'', ''/a''] @ [''--bun'', ''/b''] @ [''chat'']) 0 None []
       = Inr (Some ''/b'', [''chat''])
   \<and> main_loop ([''--bun=/z'', ''--bun'', ''/a''] @ [''--bun='' @ ''/b''] @ [''chat'']) 0 None []
       = Inr (Some ''/b'', [''chat''])"
proof -
  have v: "bun_values (segments [''--bun'', ''/a'', ''x'', ''--bun=/b'', ''y'']) = [''/a'', ''/b'']"
    by (simp add: startswith_def)
  then have ne: "bun_values (segments [''--bun'', ''/a'', ''x'', ''--bun=/b'', ''y'']) \<noteq> []"
    by simp
  have e: "even (trailing_buns [''--bun=/z'', ''--bun'', ''/a''])"
    by (simp add: trailing_buns_def)
  have p: "\<forall>a \<in> set [''chat'']. \<not> is_bun_token a"
    by (simp add: is_bun_token_def startswith_def)
  from last_bun_wins [of "[''--bun'', ''/a'', ''x'', ''--bun=/b'', ''y'']" no_bun_world "[''d'']" "[]"
         "[''--bun=/z'', ''--bun'', ''/a'']" "[''chat'']" "''/b''"]
       v ne e p
  show ?thesis
    by (simp add: main_loop_eq startswith_def find_bun_def run_entrypoint_eq)
qed

subsection \<open>A final \<open>--bun\<close> and an empty value\<close>

text \<open>
  C10, as stated, fails when the final \<open>--bun\<close> follows a \<open>--bun\<close> that the scan reads
  as the option: in \<open>--bun --bun\<close> the final token is the option's value. It is not in
  the filtered vector, it becomes the override (without it the override is \<open>None\<close>), and
  the child command is \<open>--bun src/bin/opencode-manager.ts\<close>.
\<close>

theorem final_bun_consumed_as_value:
  "last [''--bun'', ''--bun''] = ''--bun''
   \<and> main_loop [''--bun'', ''--bun''] 0 None [] = Inr (Some ''--bun'', [])
   \<and> main_loop (butlast [''--bun'', ''--bun'']) 0 None [] = Inr (None, [''--bun''])
   \<and> main no_bun_world [''d''] (Some [''--bun'', ''--bun'']) []
       = (Inr 0, [Run [''--bun'', ''src/bin/opencode-manager.ts''] [''d'']])"
  by (simp add: main_loop_eq main_Some find_bun_def run_entrypoint_eq no_bun_world_def startswith_def)

text \<open>
  C10, amended. When the vector ends in an odd number of \<open>--bun\<close> tokens, the final one
  is not an option: the loop gives the override of the vector without it, and the filtered
  vector of the vector without it followed by \<open>--bun\<close>. When it ends in an even number
  (two more after an even number), the final one is the value of the one before it: it is
  the override and is not in the filtered vector. When \<open>--bun=\<close> is the last occurrence,
  the captured value is the empty string, and \<open>find_bun\<close> on the empty string does what
  it does on \<open>None\<close>: it searches.
\<close>

theorem dangling_bun_kept:
  "(odd (trailing_buns args) \<and> main_loop (butlast args) 0 None [] = Inr (b, f) \<longrightarrow>
      last args = ''--bun'' \<and> main_loop args 0 None [] = Inr (b, f @ [''--bun'']))
   \<and> (even (trailing_buns pre) \<and> main_loop pre 0 None [] = Inr (b', f') \<longrightarrow>
        main_loop (pre @ [''--bun'', ''--bun'']) 0 None [] = Inr (Some ''--bun'', f'))
   \<and> (even (trailing_buns pre) \<and> (\<forall>a \<in> set post. \<not> is_bun_token a) \<longrightarrow>
        (\<exists>g. main_loop (pre @ [''--bun=''] @ post) 0 None [] = Inr (Some [], g)))
   \<and> find_bun w (Some []) tr = find_bun w None tr
   \<and> snd (find_bun w (Some []) tr) = tr @ [Which ''bun'']"
proof (intro conjI impI)
  assume h: "odd (trailing_buns args) \<and> main_loop (butlast args) 0 None [] = Inr (b, f)"
  let ?xs = "butlast args"
  from h odd_trailing_buns_snoc [of args]
  have a: "args = ?xs @ [''--bun'']" and e: "even (trailing_buns ?xs)" by simp_all
  from a show "last args = ''--bun''" by (metis last_snoc)
  have "segments (?xs @ [''--bun'']) = segments ?xs @ [Plain ''--bun'']"
    using e by (simp add: segments_clean_append startswith_def)
  then have "main_loop (?xs @ [''--bun'']) 0 None [] = Inr (b, f @ [''--bun''])"
    using h by (simp add: main_loop_eq kept_append bun_values_append)
  with a show "main_loop args 0 None [] = Inr (b, f @ [''--bun''])" by simp
next
  assume h: "even (trailing_buns pre) \<and> main_loop pre 0 None [] = Inr (b', f')"
  then have "segments (pre @ [''--bun'', ''--bun'']) = segments pre @ [BunPair ''--bun'']"
    by (simp add: segments_clean_append)
  then show "main_loop (pre @ [''--bun'', ''--bun'']) 0 None [] = Inr (Some ''--bun'', f')"
    using h by (simp add: main_loop_eq kept_append bun_values_append last_value_def)
next
  assume h: "even (trailing_buns pre) \<and> (\<forall>a \<in> set post. \<not> is_bun_token a)"
  then have "segments (pre @ [''--bun=''] @ post) = segments pre @ BunEq [] # map Plain post"
    by (simp add: segments_clean_append segments_all_plain segments_Cons_other startswith_def)
  then show "\<exists>g. main_loop (pre @ [''--bun=''] @ post) 0 None [] = Inr (Some [], g)"
    by (simp add: main_loop_eq bun_values_append bun_values_map_Plain last_value_def)
next
  show "find_bun w (Some []) tr = find_bun w None tr"
    by (simp add: find_bun_def)
  show "snd (find_bun w (Some []) tr) = tr @ [Which ''bun'']"
    by (simp add: find_bun_def Let_def)
qed

theorem dangling_bun_kept_witness:
  "odd (trailing_buns [''--bun'', ''/x'', ''list'', ''--bun''])
   \<and> main_loop (butlast [''--bun'', ''/x'', ''list'', ''--bun'']) 0 None [] = Inr (Some ''/x'', [''list''])
   \<and> main_loop [''--bun'', ''/x'', ''list'', ''--bun''] 0 None [] = Inr (Some ''/x'', [''list'', ''--bun''])
   \<and> even (trailing_buns [''--bun'', ''/x'', ''list''])
   \<and> main_loop ([''--bun'', ''/x'', ''list''] @ [''--bun'', ''--bun'']) 0 None [] = Inr (Some ''--bun'', [''list''])
   \<and> main_loop ([''--bun'', ''/x'', ''list''] @ [''--bun=''] @ [''chat'']) 0 None [] = Inr (Some [], [''list'', ''chat''])
   \<and> snd (main example_world [''d''] (Some [''--bun'', ''/x'', ''list'', ''--bun='', ''chat'']) [])
       = [Which ''bun'', Run [''/usr/bin/bun'', ''src/bin/opencode-manager.ts'', ''list'', ''chat''] [''d'']]"
proof -
  have o: "odd (trailing_buns [''--bun'', ''/x'', ''list'', ''--bun''])"
    by (simp add: trailing_buns_def)
  have m: "main_loop (butlast [''--bun'', ''/x'', ''list'', ''--bun'']) 0 None [] = Inr (Some ''/x'', [''list''])"
    by (simp add: main_loop_eq startswith_def)
  have m': "main_loop [''--bun'', ''/x'', ''list''] 0 None [] = Inr (Some ''/x'', [''list''])"
    by (simp add: main_loop_eq startswith_def)
  have e: "even (trailing_buns [''--bun'', ''/x'', ''list''])"
    by (simp add: trailing_buns_def)
  have p: "\<forall>a \<in> set [''chat'']. \<not> is_bun_token a"
    by (simp add: is_bun_token_def startswith_def)
  from dangling_bun_kept [of "[''--bun'', ''/x'', ''list'', ''--bun'']" "Some ''/x''" "[''list'']"
         "[''--bun'', ''/x'', ''list'']" "Some ''/x''" "[''list'']" "[''chat'']" example_world "[]"]
       o m m' e p
  show ?thesis
    by (simp add: main_loop_eq main_Some startswith_def find_bun_def run_entrypoint_eq example_world_def)
qed

end
